theory Spec2Isabelle
  imports Main "HOL-Library.Word" "HOL-Library.Sublist" "HOL-Library.List_Lexorder"
    "HOL-Library.Char_ord" "HOL-Library.Multiset"
begin

section \<open>Python values used by the program\<close>

text \<open>
  Exceptions of the Python run time that the modelled code can raise. A function that can
  raise returns \<open>error + 'a\<close>, with \<open>Inl\<close> for the exception.
\<close>

datatype error =
    IndexError
  | TypeError
  | FileNotFoundError
  | PermissionError
  | ConnectionError
  | UnicodeDecodeError
  | UnicodeEncodeError
  | SSLError

text \<open>
  \<open>xs[i]\<close> on a Python sequence: a negative index counts from the end, an index outside
  \<open>-len(xs) .. len(xs) - 1\<close> raises IndexError.
\<close>

definition py_index :: "'a list \<Rightarrow> int \<Rightarrow> error + 'a" where
  "py_index xs i =
     (if 0 \<le> i \<and> i < int (length xs) then Inr (xs ! nat i)
      else if - int (length xs) \<le> i \<and> i < 0 then Inr (xs ! nat (int (length xs) + i))
      else Inl IndexError)"

text \<open>\<open>xs[i] = v\<close> on a Python list, with the same index convention.\<close>

definition py_setitem :: "'a list \<Rightarrow> int \<Rightarrow> 'a \<Rightarrow> error + 'a list" where
  "py_setitem xs i v =
     (if 0 \<le> i \<and> i < int (length xs) then Inr (xs[nat i := v])
      else if - int (length xs) \<le> i \<and> i < 0 then Inr (xs[nat (int (length xs) + i) := v])
      else Inl IndexError)"

text \<open>\<open>x in xs\<close> on a Python list: a scan from the left comparing with \<open>==\<close>.\<close>

fun py_in :: "'a \<Rightarrow> 'a list \<Rightarrow> bool" where
  "py_in x [] = False"
| "py_in x (y # ys) = (if y = x then True else py_in x ys)"

text \<open>
  One pass through the body of a \<open>while\<close> loop inside a function either executes
  \<open>return\<close> or leaves the loop variables for the next test of the condition.
\<close>

datatype 's loop_step = Return bool | Continue 's

subsection \<open>Text and bytes\<close>

text \<open>
  A Python \<open>str\<close> is a sequence of Unicode code points (numbers up to \<open>0x10FFFF\<close>), a
  \<open>bytes\<close> object a sequence of bytes.
\<close>

type_synonym str = "nat list"
type_synonym byte = "8 word"

text \<open>A \<open>str\<close> literal of ASCII characters, and the same literal as \<open>bytes\<close>.\<close>

definition py_str :: "string \<Rightarrow> str" where
  "py_str s = map of_char s"

definition py_bytes :: "string \<Rightarrow> byte list" where
  "py_bytes s = map of_char s"

text \<open>
  \<open>bytes.decode()\<close>: strict UTF-8. A byte sequence that is not well-formed UTF-8
  (a stray continuation byte, a truncated or overlong sequence, a surrogate, a value above
  \<open>0x10FFFF\<close>) raises UnicodeDecodeError.
\<close>

definition is_continuation :: "byte \<Rightarrow> bool" where
  "is_continuation b \<longleftrightarrow> 0x80 \<le> b \<and> b \<le> 0xBF"

text \<open>
  The first character of a UTF-8 text that starts with the byte \<open>b\<close> and goes on with
  \<open>bs\<close>: its code point and the number of bytes of \<open>bs\<close> that belong to it.
\<close>

definition utf8_first :: "byte \<Rightarrow> byte list \<Rightarrow> error + nat \<times> nat" where
  "utf8_first b bs =
     (if b < 0x80 then Inr (unat b, 0)
      else if 0xC2 \<le> b \<and> b \<le> 0xDF then
        (case bs of
           b1 # rest \<Rightarrow>
             if is_continuation b1 then Inr ((unat b - 0xC0) * 0x40 + (unat b1 - 0x80), 1)
             else Inl UnicodeDecodeError
         | _ \<Rightarrow> Inl UnicodeDecodeError)
      else if 0xE0 \<le> b \<and> b \<le> 0xEF then
        (case bs of
           b1 # b2 # rest \<Rightarrow>
             if (if b = 0xE0 then 0xA0 else 0x80) \<le> b1 \<and> b1 \<le> (if b = 0xED then 0x9F else 0xBF)
                \<and> is_continuation b2 then
               Inr ((unat b - 0xE0) * 0x1000 + (unat b1 - 0x80) * 0x40 + (unat b2 - 0x80), 2)
             else Inl UnicodeDecodeError
         | _ \<Rightarrow> Inl UnicodeDecodeError)
      else if 0xF0 \<le> b \<and> b \<le> 0xF4 then
        (case bs of
           b1 # b2 # b3 # rest \<Rightarrow>
             if (if b = 0xF0 then 0x90 else 0x80) \<le> b1 \<and> b1 \<le> (if b = 0xF4 then 0x8F else 0xBF)
                \<and> is_continuation b2 \<and> is_continuation b3 then
               Inr ((unat b - 0xF0) * 0x40000 + (unat b1 - 0x80) * 0x1000
                    + (unat b2 - 0x80) * 0x40 + (unat b3 - 0x80), 3)
             else Inl UnicodeDecodeError
         | _ \<Rightarrow> Inl UnicodeDecodeError)
      else Inl UnicodeDecodeError)"

function utf8_decode :: "byte list \<Rightarrow> error + str" where
  "utf8_decode [] = Inr []"
| "utf8_decode (b # bs) =
     (case utf8_first b bs of
        Inl e \<Rightarrow> Inl e
      | Inr (c, k) \<Rightarrow>
          (case utf8_decode (drop k bs) of Inl e \<Rightarrow> Inl e | Inr cs \<Rightarrow> Inr (c # cs)))"
  by pat_completeness auto
termination
  by (relation "measure length") auto

text \<open>\<open>str.encode()\<close>: UTF-8; a surrogate code point raises UnicodeEncodeError.\<close>

definition encode_char :: "nat \<Rightarrow> byte list" where
  "encode_char c =
     (if c < 0x80 then [of_nat c]
      else if c < 0x800 then [of_nat (0xC0 + c div 0x40), of_nat (0x80 + c mod 0x40)]
      else if c < 0x10000 then
        [of_nat (0xE0 + c div 0x1000), of_nat (0x80 + c div 0x40 mod 0x40),
         of_nat (0x80 + c mod 0x40)]
      else
        [of_nat (0xF0 + c div 0x40000), of_nat (0x80 + c div 0x1000 mod 0x40),
         of_nat (0x80 + c div 0x40 mod 0x40), of_nat (0x80 + c mod 0x40)])"

fun utf8_encode :: "str \<Rightarrow> error + byte list" where
  "utf8_encode [] = Inr []"
| "utf8_encode (c # cs) =
     (if 0xD800 \<le> c \<and> c \<le> 0xDFFF then Inl UnicodeEncodeError
      else (case utf8_encode cs of Inl e \<Rightarrow> Inl e | Inr bs \<Rightarrow> Inr (encode_char c @ bs)))"

text \<open>
  The characters \<open>str.strip()\<close> removes (those for which \<open>str.isspace()\<close> holds), and
  \<open>strip\<close> itself: whitespace is removed at both ends.
\<close>

definition is_whitespace :: "nat \<Rightarrow> bool" where
  "is_whitespace c \<longleftrightarrow>
     (0x09 \<le> c \<and> c \<le> 0x0D) \<or> (0x1C \<le> c \<and> c \<le> 0x20) \<or> c = 0x85 \<or> c = 0xA0 \<or> c = 0x1680
     \<or> (0x2000 \<le> c \<and> c \<le> 0x200A) \<or> c = 0x2028 \<or> c = 0x2029 \<or> c = 0x202F \<or> c = 0x205F
     \<or> c = 0x3000"

definition strip :: "str \<Rightarrow> str" where
  "strip s = rev (dropWhile is_whitespace (rev (dropWhile is_whitespace s)))"

text \<open>
  \<open>str.splitlines()\<close>: the text is cut at every line boundary, \<open>\r\n\<close> counting as one;
  the boundaries are dropped and no empty line is added after a final boundary.
\<close>

definition is_linebreak :: "nat \<Rightarrow> bool" where
  "is_linebreak c \<longleftrightarrow>
     (0x0A \<le> c \<and> c \<le> 0x0D) \<or> (0x1C \<le> c \<and> c \<le> 0x1E) \<or> c = 0x85 \<or> c = 0x2028 \<or> c = 0x2029"

fun skip_linebreak :: "str \<Rightarrow> str" where
  "skip_linebreak [] = []"
| "skip_linebreak [c] = []"
| "skip_linebreak (c # d # rest) = (if c = 0x0D \<and> d = 0x0A then rest else d # rest)"

function splitlines :: "str \<Rightarrow> str list" where
  "splitlines s =
     (if s = [] then []
      else takeWhile (\<lambda>c. \<not> is_linebreak c) s
           # splitlines (skip_linebreak (dropWhile (\<lambda>c. \<not> is_linebreak c) s)))"
  by pat_completeness auto
termination
proof (relation "measure length", goal_cases)
  case 1
  show ?case by simp
next
  case (2 s)
  have skip: "length (skip_linebreak xs) \<le> length xs - 1" for xs
    by (induction xs rule: skip_linebreak.induct) auto
  have "length (dropWhile (\<lambda>c. \<not> is_linebreak c) s) \<le> length s"
    by (rule length_dropWhile_le)
  moreover have "0 < length s" using 2 by simp
  ultimately have "length (skip_linebreak (dropWhile (\<lambda>c. \<not> is_linebreak c) s)) < length s"
    using skip[of "dropWhile (\<lambda>c. \<not> is_linebreak c) s"] by linarith
  then show ?case by simp
qed

declare splitlines.simps [simp del]

subsection \<open>The file system\<close>

text \<open>
  The file system as the program sees it through \<open>open(path, "r")\<close> and \<open>f.read()\<close>: a
  path is absent (FileNotFoundError), present but not readable (PermissionError), or gives
  the text of the file.
\<close>

datatype file_state = Readable str | Unreadable

type_synonym filesystem = "(string \<times> file_state) list"

definition open_read :: "filesystem \<Rightarrow> string \<Rightarrow> error + str" where
  "open_read fs path =
     (case map_of fs path of
        None \<Rightarrow> Inl FileNotFoundError
      | Some Unreadable \<Rightarrow> Inl PermissionError
      | Some (Readable content) \<Rightarrow> Inr content)"

section \<open>benchmark.py\<close>

text \<open>
  A line is a Python \<open>str\<close>, a sequence of characters; the strategies only compare
  characters, so the character type is a parameter. \<open>str\<close> comparison is lexicographic on
  the characters, which is the order of \<open>HOL-Library.List_Lexorder\<close>.
\<close>

subsection \<open>linear_search\<close>

definition linear_search :: "'a list list \<Rightarrow> 'a list \<Rightarrow> bool" where
  "linear_search file_contents query = py_in query file_contents"

subsection \<open>binary_search\<close>

text \<open>
  The \<open>while low <= high\<close> loop. \<open>//\<close> is floor division, as \<open>div\<close> on \<open>int\<close>.
\<close>

function bisect :: "('a::linorder) list list \<Rightarrow> 'a list \<Rightarrow> int \<Rightarrow> int \<Rightarrow> error + bool" where
  "bisect file_contents query low high =
     (if low \<le> high then
        (case py_index file_contents ((low + high) div 2) of
           Inl e \<Rightarrow> Inl e
         | Inr line \<Rightarrow>
             if line = query then Inr True
             else if line < query then bisect file_contents query ((low + high) div 2 + 1) high
             else bisect file_contents query low ((low + high) div 2 - 1))
      else Inr False)"
  by pat_completeness auto
termination
  by (relation "measure (\<lambda>(fc, q, low, high). nat (high - low + 1))") auto

declare bisect.simps [simp del]

text \<open>
  \<open>file_contents.sort()\<close> sorts the caller's list in place, so the model returns the
  list as the call leaves it next to the result.
\<close>

definition binary_search :: "('a::linorder) list list \<Rightarrow> 'a list \<Rightarrow> (error + bool) \<times> 'a list list" where
  "binary_search file_contents query =
     (let file_contents' = sort file_contents
      in (bisect file_contents' query 0 (int (length file_contents') - 1), file_contents'))"

subsection \<open>hash_table_search\<close>

definition hash_table_search :: "'a list list \<Rightarrow> 'a list \<Rightarrow> bool" where
  "hash_table_search file_contents query =
     (let file_set = set file_contents in query \<in> file_set)"

subsection \<open>kmp_search\<close>

text \<open>
  The inner function \<open>kmp_table\<close>: \<open>table = [0] * len(pattern)\<close>, \<open>j = 0\<close> and the loop
  \<open>for i in range(1, len(pattern))\<close>, here a recursion on the list of the indices with
  \<open>table\<close> and \<open>j\<close> as the state. In the branch \<open>j != 0\<close> the source has
  \<open>j = table[j - 1]; i -= 1\<close>: the assignment to \<open>i\<close> is overwritten when the \<open>for\<close>
  statement takes the next index, so the pass is not repeated and \<open>table[i]\<close> keeps its
  initial \<open>0\<close>.
\<close>

fun kmp_table_for :: "'a list \<Rightarrow> int list \<Rightarrow> int list \<Rightarrow> int \<Rightarrow> error + int list" where
  "kmp_table_for pattern [] table j = Inr table"
| "kmp_table_for pattern (i # is) table j =
     (case py_index pattern i of
        Inl e \<Rightarrow> Inl e
      | Inr p_i \<Rightarrow>
     (case py_index pattern j of
        Inl e \<Rightarrow> Inl e
      | Inr p_j \<Rightarrow>
          if p_i = p_j then
            (case py_setitem table i (j + 1) of
               Inl e \<Rightarrow> Inl e
             | Inr table' \<Rightarrow> kmp_table_for pattern is table' (j + 1))
          else if j \<noteq> 0 then
            (case py_index table (j - 1) of
               Inl e \<Rightarrow> Inl e
             | Inr j' \<Rightarrow> kmp_table_for pattern is table j')
          else
            (case py_setitem table i 0 of
               Inl e \<Rightarrow> Inl e
             | Inr table' \<Rightarrow> kmp_table_for pattern is table' j)))"

definition kmp_table :: "'a list \<Rightarrow> error + int list" where
  "kmp_table pattern =
     kmp_table_for pattern (map int [1..<length pattern]) (replicate (length pattern) 0) 0"

text \<open>
  One pass through the body of \<open>while i < n\<close>:
  \<^verbatim>\<open>
  if pattern[j] == text[i]:
      i += 1
      j += 1
  if j == m:
      return True
  elif i < n and pattern[j] != text[i]:
      if j != 0:
          j = table[j - 1]
      else:
          i += 1
  \<close>
\<close>

definition kmp_body ::
  "'a list \<Rightarrow> 'a list \<Rightarrow> int list \<Rightarrow> int \<Rightarrow> int \<Rightarrow> error + (int \<times> int) loop_step" where
  "kmp_body pattern text table i j =
     (case py_index pattern j of
        Inl e \<Rightarrow> Inl e
      | Inr p_j \<Rightarrow>
     (case py_index text i of
        Inl e \<Rightarrow> Inl e
      | Inr t_i \<Rightarrow>
          (let i1 = (if p_j = t_i then i + 1 else i);
               j1 = (if p_j = t_i then j + 1 else j)
           in if j1 = int (length pattern) then Inr (Return True)
              else if i1 < int (length text) then
                (case py_index pattern j1 of
                   Inl e \<Rightarrow> Inl e
                 | Inr p_j1 \<Rightarrow>
                (case py_index text i1 of
                   Inl e \<Rightarrow> Inl e
                 | Inr t_i1 \<Rightarrow>
                     if p_j1 \<noteq> t_i1 then
                       (if j1 \<noteq> 0 then
                          (case py_index table (j1 - 1) of
                             Inl e \<Rightarrow> Inl e
                           | Inr j2 \<Rightarrow> Inr (Continue (i1, j2)))
                        else Inr (Continue (i1 + 1, j1)))
                     else Inr (Continue (i1, j1))))
              else Inr (Continue (i1, j1)))))"

text \<open>
  The loop \<open>while i < n\<close>. Whether it ends depends on the entries of \<open>table\<close>, so it is
  a partial function: \<open>None\<close> is a loop that does not end, \<open>Some (Inr False)\<close> a loop
  left by its condition, \<open>Some (Inr True)\<close> the \<open>return True\<close>, \<open>Some (Inl e)\<close> an
  exception.
\<close>

partial_function (option) kmp_while ::
  "'a list \<Rightarrow> 'a list \<Rightarrow> int list \<Rightarrow> int \<Rightarrow> int \<Rightarrow> (error + bool) option" where
  "kmp_while pattern text table i j =
     (if i < int (length text) then
        (case kmp_body pattern text table i j of
           Inl e \<Rightarrow> Some (Inl e)
         | Inr (Return b) \<Rightarrow> Some (Inr b)
         | Inr (Continue (i', j')) \<Rightarrow> kmp_while pattern text table i' j')
      else Some (Inr False))"

declare kmp_while.simps [code]

text \<open>
  \<open>for text in file_contents\<close>, with \<open>table = kmp_table(pattern)\<close> computed anew for
  every line and \<open>i = j = 0\<close>; \<open>return False\<close> after the last line.
\<close>

fun kmp_for :: "'a list \<Rightarrow> 'a list list \<Rightarrow> (error + bool) option" where
  "kmp_for pattern [] = Some (Inr False)"
| "kmp_for pattern (text # rest) =
     (case kmp_table pattern of
        Inl e \<Rightarrow> Some (Inl e)
      | Inr table \<Rightarrow>
          (case kmp_while pattern text table 0 0 of
             None \<Rightarrow> None
           | Some (Inl e) \<Rightarrow> Some (Inl e)
           | Some (Inr True) \<Rightarrow> Some (Inr True)
           | Some (Inr False) \<Rightarrow> kmp_for pattern rest))"

definition kmp_search :: "'a list list \<Rightarrow> 'a list \<Rightarrow> (error + bool) option" where
  "kmp_search file_contents query = kmp_for query file_contents"

subsection \<open>boyer_moore_search\<close>

text \<open>
  The inner function \<open>preprocess\<close>: \<open>skip[pattern[i]] = max(1, len(pattern) - i - 1)\<close>
  for \<open>i\<close> in \<open>range(len(pattern))\<close>, a later index replacing the entry of an earlier
  one. The indices are those of the pattern, so \<open>pattern[i]\<close> is in range.
\<close>

definition preprocess :: "'a list \<Rightarrow> ('a \<rightharpoonup> int)" where
  "preprocess pattern =
     fold (\<lambda>i skip. skip(pattern ! i \<mapsto> max 1 (int (length pattern) - int i - 1)))
       [0..<length pattern] Map.empty"

text \<open>
  The inner loop \<open>while j >= 0 and text[i] == pattern[j]: i -= 1; j -= 1\<close>, which gives
  the values of \<open>i\<close> and \<open>j\<close> it ends with. \<open>text[i]\<close> is read with Python's index
  convention, so an \<open>i\<close> below zero reads from the end of the line.
\<close>

function bm_inner :: "'a list \<Rightarrow> 'a list \<Rightarrow> int \<Rightarrow> int \<Rightarrow> error + (int \<times> int)" where
  "bm_inner text pattern i j =
     (if j \<ge> 0 then
        (case py_index text i of
           Inl e \<Rightarrow> Inl e
         | Inr t_i \<Rightarrow>
        (case py_index pattern j of
           Inl e \<Rightarrow> Inl e
         | Inr p_j \<Rightarrow>
             if t_i = p_j then bm_inner text pattern (i - 1) (j - 1) else Inr (i, j)))
      else Inr (i, j))"
  by pat_completeness auto
termination
  by (relation "measure (\<lambda>(text, pattern, i, j). nat (j + 1))") auto

declare bm_inner.simps [simp del]

text \<open>
  One pass through the body of \<open>while i < n\<close>: \<open>j = m - 1\<close>, the inner loop,
  \<open>if j < 0: return True\<close> and \<open>i += skip.get(text[i], m)\<close>.
\<close>

definition bm_body :: "('a \<rightharpoonup> int) \<Rightarrow> 'a list \<Rightarrow> 'a list \<Rightarrow> int \<Rightarrow> error + int loop_step" where
  "bm_body skip pattern text i =
     (case bm_inner text pattern i (int (length pattern) - 1) of
        Inl e \<Rightarrow> Inl e
      | Inr (i', j') \<Rightarrow>
          if j' < 0 then Inr (Return True)
          else
            (case py_index text i' of
               Inl e \<Rightarrow> Inl e
             | Inr t_i \<Rightarrow>
                 Inr (Continue (i' + (case skip t_i of None \<Rightarrow> int (length pattern) | Some s \<Rightarrow> s)))))"

text \<open>
  The loop \<open>while i < n\<close>; \<open>i\<close> can go down as well as up, so the loop is a partial
  function, with the results read as for \<open>kmp_while\<close>.
\<close>

partial_function (option) bm_while ::
  "('a \<rightharpoonup> int) \<Rightarrow> 'a list \<Rightarrow> 'a list \<Rightarrow> int \<Rightarrow> (error + bool) option" where
  "bm_while skip pattern text i =
     (if i < int (length text) then
        (case bm_body skip pattern text i of
           Inl e \<Rightarrow> Some (Inl e)
         | Inr (Return b) \<Rightarrow> Some (Inr b)
         | Inr (Continue i') \<Rightarrow> bm_while skip pattern text i')
      else Some (Inr False))"

declare bm_while.simps [code]

text \<open>
  \<open>for text in file_contents\<close>, each line started at \<open>i = m - 1\<close>; \<open>return False\<close>
  after the last line.
\<close>

fun bm_for :: "('a \<rightharpoonup> int) \<Rightarrow> 'a list \<Rightarrow> 'a list list \<Rightarrow> (error + bool) option" where
  "bm_for skip pattern [] = Some (Inr False)"
| "bm_for skip pattern (text # rest) =
     (case bm_while skip pattern text (int (length pattern) - 1) of
        None \<Rightarrow> None
      | Some (Inl e) \<Rightarrow> Some (Inl e)
      | Some (Inr True) \<Rightarrow> Some (Inr True)
      | Some (Inr False) \<Rightarrow> bm_for skip pattern rest)"

definition boyer_moore_search :: "'a list list \<Rightarrow> 'a list \<Rightarrow> (error + bool) option" where
  "boyer_moore_search file_contents query = bm_for (preprocess query) query file_contents"

subsection \<open>benchmark_algorithms\<close>

text \<open>
  The strategies by name. A call \<open>func(file_contents, query)\<close> gives what the function
  returns or raises (\<open>None\<close> when it does not return) and the caller's list as the call
  leaves it.
\<close>

datatype algorithm =
    Linear_search
  | Binary_search
  | Kmp_search
  | Boyer_moore_search
  | Hash_table_search

definition call_algorithm ::
  "algorithm \<Rightarrow> ('a::linorder) list list \<Rightarrow> 'a list \<Rightarrow> (error + bool) option \<times> 'a list list" where
  "call_algorithm func file_contents query =
     (case func of
        Linear_search \<Rightarrow> (Some (Inr (linear_search file_contents query)), file_contents)
      | Binary_search \<Rightarrow>
          (let (result, file_contents') = binary_search file_contents query
           in (Some result, file_contents'))
      | Kmp_search \<Rightarrow> (kmp_search file_contents query, file_contents)
      | Boyer_moore_search \<Rightarrow> (boyer_moore_search file_contents query, file_contents)
      | Hash_table_search \<Rightarrow> (Some (Inr (hash_table_search file_contents query)), file_contents))"

text \<open>
  The dictionary \<open>algorithms\<close> in its insertion order, which is the order
  \<open>algorithms.items()\<close> yields; the entries for \<open>boyer_moore_search\<close> and
  \<open>hash_table_search\<close> are commented out in the source.
\<close>

definition algorithms :: "algorithm list" where
  "algorithms = [Linear_search, Binary_search, Kmp_search]"

text \<open>
  \<open>for name, func in algorithms.items(): func(file_contents, query)\<close>, every call on
  the one list \<open>file_contents\<close>. The timings and the CSV file are left out; the model
  keeps, for each call made, the name, the list as the function received it and what the
  call did. A call that raises or does not return is the last one.
\<close>

fun benchmark_loop ::
  "algorithm list \<Rightarrow> ('a::linorder) list list \<Rightarrow> 'a list
     \<Rightarrow> (algorithm \<times> 'a list list \<times> (error + bool) option) list" where
  "benchmark_loop [] file_contents query = []"
| "benchmark_loop (func # rest) file_contents query =
     (let (result, file_contents') = call_algorithm func file_contents query
      in (func, file_contents, result) #
         (case result of
            Some (Inr b) \<Rightarrow> benchmark_loop rest file_contents' query
          | _ \<Rightarrow> []))"

text \<open>
  \<open>file_contents = file.read().splitlines()\<close>, then the loop. FileNotFoundError is
  caught (a message is printed and the function returns \<open>None\<close>); any other exception of
  \<open>open\<close> leaves the function.
\<close>

definition benchmark_algorithms ::
  "filesystem \<Rightarrow> string \<Rightarrow> str
     \<Rightarrow> error + (algorithm \<times> str list \<times> (error + bool) option) list option" where
  "benchmark_algorithms fs path query =
     (case open_read fs path of
        Inl e \<Rightarrow> if e = FileNotFoundError then Inr None else Inl e
      | Inr content \<Rightarrow> Inr (Some (benchmark_loop algorithms (splitlines content) query)))"

section \<open>server.py\<close>

subsection \<open>read_file\<close>

definition read_file :: "filesystem \<Rightarrow> string \<Rightarrow> error + str list" where
  "read_file fs path =
     (case open_read fs path of Inl e \<Rightarrow> Inl e | Inr content \<Rightarrow> Inr (splitlines content))"

subsection \<open>The Server object\<close>

record server =
  ssl_enabled :: int
  reread_on_query :: int
  file_path :: string
  file_contents :: "str list option"

text \<open>
  \<open>Server.__init__\<close>, from the three configuration values as \<open>int(...)\<close> and
  \<open>config.get\<close> deliver them. \<open>file_contents\<close> starts as \<open>None\<close> and is loaded here only
  when \<open>reread_on_query\<close> is false (zero); a failing \<open>read_file\<close> leaves the constructor
  with its exception.
\<close>

definition Server_init :: "filesystem \<Rightarrow> int \<Rightarrow> int \<Rightarrow> string \<Rightarrow> error + server" where
  "Server_init fs ssl reread path =
     (let self = \<lparr>ssl_enabled = ssl, reread_on_query = reread, file_path = path,
                  file_contents = None\<rparr>
      in if \<not> (reread_on_query self \<noteq> 0) then
           (case read_file fs (file_path self) of
              Inl e \<Rightarrow> Inl e
            | Inr lines \<Rightarrow> Inr (self\<lparr>file_contents := Some lines\<rparr>))
         else Inr self)"

subsection \<open>process_query\<close>

definition STRING_EXISTS :: str where
  "STRING_EXISTS = py_str ''STRING EXISTS''"

definition STRING_NOT_FOUND :: str where
  "STRING_NOT_FOUND = py_str ''STRING NOT FOUND''"

text \<open>
  The local variable \<open>file_contents\<close> of \<open>process_query\<close>: the lines read from the file
  now, or the attribute set by the constructor (which may still be \<open>None\<close>).
\<close>

definition consulted_dataset :: "server \<Rightarrow> filesystem \<Rightarrow> error + str list option" where
  "consulted_dataset self fs =
     (if reread_on_query self \<noteq> 0 then
        (case read_file fs (file_path self) of Inl e \<Rightarrow> Inl e | Inr lines \<Rightarrow> Inr (Some lines))
      else Inr (file_contents self))"

text \<open>\<open>query in None\<close> raises TypeError.\<close>

definition process_query :: "server \<Rightarrow> filesystem \<Rightarrow> str \<Rightarrow> error + str" where
  "process_query self fs query =
     (case consulted_dataset self fs of
        Inl e \<Rightarrow> Inl e
      | Inr None \<Rightarrow> Inl TypeError
      | Inr (Some lines) \<Rightarrow>
          if py_in query lines then Inr STRING_EXISTS else Inr STRING_NOT_FOUND)"

subsection \<open>handle_client\<close>

text \<open>
  What the peer and the network do to one connection: the result of \<open>conn.recv(1024)\<close>
  and whether \<open>conn.sendall\<close> raises.
\<close>

record connection =
  recv_result :: "error + byte list"
  sendall_error :: "error option"

type_synonym addr = "string \<times> nat"

text \<open>
  The effects of a handler, in order: the calls on the socket and the log records.
  \<open>Sent\<close> is a \<open>sendall\<close> that returned, \<open>SendFailed\<close> one that raised. The elapsed
  time that \<open>log_query\<close> writes is a floating-point number and is left out of the record.
\<close>

datatype event =
    Recv
  | Sent "byte list"
  | SendFailed "byte list"
  | LogDebug str addr
  | LogError addr error
  | Close

text \<open>\<open>data = conn.recv(1024).decode().strip()\<close>\<close>

definition receive_data :: "connection \<Rightarrow> error + str" where
  "receive_data conn =
     (case recv_result conn of
        Inl e \<Rightarrow> Inl e
      | Inr raw \<Rightarrow> (case utf8_decode raw of Inl e \<Rightarrow> Inl e | Inr text \<Rightarrow> Inr (strip text)))"

text \<open>
  \<open>conn.sendall(response.encode() + b"\n")\<close> and \<open>self.log_query(data, addr, ...)\<close>:
  the rest of the \<open>try\<close> block once \<open>process_query\<close> has returned. The second component
  is the exception that ends the block, if any.
\<close>

definition send_response :: "connection \<Rightarrow> addr \<Rightarrow> str \<Rightarrow> str \<Rightarrow> event list \<times> error option" where
  "send_response conn addr data response =
     (case utf8_encode response of
        Inl e \<Rightarrow> ([], Some e)
      | Inr payload \<Rightarrow>
          (case sendall_error conn of
             Some e \<Rightarrow> ([SendFailed (payload @ [0x0A])], Some e)
           | None \<Rightarrow> ([Sent (payload @ [0x0A]), LogDebug data addr], None)))"

definition handle_client_try ::
  "server \<Rightarrow> filesystem \<Rightarrow> connection \<Rightarrow> addr \<Rightarrow> event list \<times> error option" where
  "handle_client_try self fs conn addr =
     (case receive_data conn of
        Inl e \<Rightarrow> ([Recv], Some e)
      | Inr data \<Rightarrow>
          (case process_query self fs data of
             Inl e \<Rightarrow> ([Recv], Some e)
           | Inr response \<Rightarrow>
               (let (events, raised) = send_response conn addr data response
                in (Recv # events, raised))))"

text \<open>
  \<open>try: ... except Exception as e: logging.error(...) finally: conn.close()\<close>. Every
  value of \<open>error\<close> is an \<open>Exception\<close>, so the \<open>except\<close> clause takes it; the second
  component of the result is the exception that leaves \<open>handle_client\<close>.
\<close>

definition handle_client ::
  "server \<Rightarrow> filesystem \<Rightarrow> connection \<Rightarrow> addr \<Rightarrow> event list \<times> error option" where
  "handle_client self fs conn addr =
     (let (events, raised) = handle_client_try self fs conn addr
      in (events @ (case raised of Some e \<Rightarrow> [LogError addr e] | None \<Rightarrow> []) @ [Close], None))"

subsection \<open>handle_client with its reads of the dataset file\<close>

text \<open>
  \<open>process_query\<close> and \<open>handle_client\<close> once more, with every call of
  \<open>self.read_file(self.file_path)\<close> recorded among the effects, so that loading the
  dataset a second time would show in the record. \<open>Handler\<close> wraps the effects on the
  socket and the log.
\<close>

datatype io_event = ReadFile string | Handler event

text \<open>
  \<^verbatim>\<open>
  if self.reread_on_query:
      file_contents = self.read_file(self.file_path)
  else:
      file_contents = self.file_contents
  if query in file_contents:
      return "STRING EXISTS"
  else:
      return "STRING NOT FOUND"
  \<close>
\<close>

definition process_query_io ::
  "server \<Rightarrow> filesystem \<Rightarrow> str \<Rightarrow> io_event list \<times> (error + str)" where
  "process_query_io self fs query =
     (if reread_on_query self \<noteq> 0 then
        ([ReadFile (file_path self)],
         (case read_file fs (file_path self) of
            Inl e \<Rightarrow> Inl e
          | Inr lines \<Rightarrow>
              if py_in query lines then Inr STRING_EXISTS else Inr STRING_NOT_FOUND))
      else
        ([],
         (case file_contents self of
            None \<Rightarrow> Inl TypeError
          | Some lines \<Rightarrow>
              if py_in query lines then Inr STRING_EXISTS else Inr STRING_NOT_FOUND)))"



subsection \<open>start_server\<close>




subsection \<open>Reading a handler's effects\<close>

text \<open>The payloads of the \<open>sendall\<close> calls that returned, in order.\<close>

fun sent_payloads :: "event list \<Rightarrow> byte list list" where
  "sent_payloads [] = []"
| "sent_payloads (Sent payload # events) = payload # sent_payloads events"
| "sent_payloads (_ # events) = sent_payloads events"

text \<open>The calls of \<open>sendall\<close>, whether they returned or raised.\<close>

fun sendall_calls :: "event list \<Rightarrow> nat" where
  "sendall_calls [] = 0"
| "sendall_calls (Sent payload # events) = Suc (sendall_calls events)"
| "sendall_calls (SendFailed payload # events) = Suc (sendall_calls events)"
| "sendall_calls (_ # events) = sendall_calls events"

text \<open>
  In a record with the reads of the dataset file: the effects on the socket and the log,
  and the number of calls of \<open>read_file\<close>.
\<close>

fun handler_events :: "io_event list \<Rightarrow> event list" where
  "handler_events [] = []"
| "handler_events (Handler ev # events) = ev # handler_events events"
| "handler_events (ReadFile path # events) = handler_events events"

fun read_file_calls :: "io_event list \<Rightarrow> nat" where
  "read_file_calls [] = 0"
| "read_file_calls (ReadFile path # events) = Suc (read_file_calls events)"
| "read_file_calls (Handler ev # events) = read_file_calls events"

subsection \<open>The framing of a query in the specification\<close>

text \<open>
  The specification's reading of how a received query is framed: whitespace is removed at
  the end of the text only (Python's \<open>str.rstrip()\<close>). It is stated here to be compared
  with \<open>receive_data\<close>.
\<close>

definition spec_rstrip :: "str \<Rightarrow> str" where
  "spec_rstrip s = rev (dropWhile is_whitespace (rev s))"

section \<open>Properties\<close>

subsection \<open>The equality strategies\<close>

lemma py_in_set: "py_in x xs \<longleftrightarrow> x \<in> set xs"
  by (induction xs) auto

lemma py_index_in_range:
  "0 \<le> i \<Longrightarrow> i < int (length xs) \<Longrightarrow> py_index xs i = Inr (xs ! nat i)"
  by (simp add: py_index_def)

lemma bisect_sorted:
  assumes "sorted fc" "0 \<le> low" "high < int (length fc)"
  shows "bisect fc q low high = Inr (\<exists>k. low \<le> int k \<and> int k \<le> high \<and> fc ! k = q)"
  using assms
proof (induction fc q low high rule: bisect.induct)
  case (1 fc q low high)
  let ?mid = "(low + high) div 2"
  show ?case
  proof (cases "low \<le> high")
    case False
    then show ?thesis by (subst bisect.simps) auto
  next
    case True
    have mid: "low \<le> ?mid" "?mid \<le> high" using True by auto
    have rng: "0 \<le> ?mid" "?mid < int (length fc)" using mid 1(4,5) by auto
    have idx: "py_index fc ?mid = Inr (fc ! nat ?mid)"
      using rng by (rule py_index_in_range)
    let ?line = "fc ! nat ?mid"
    consider (eq) "?line = q" | (lt) "?line < q" | (gt) "?line \<noteq> q" "\<not> ?line < q"
      by blast
    then show ?thesis
    proof cases
      case eq
      have "low \<le> int (nat ?mid) \<and> int (nat ?mid) \<le> high \<and> fc ! nat ?mid = q"
        using mid rng eq by auto
      then have "\<exists>k. low \<le> int k \<and> int k \<le> high \<and> fc ! k = q" by blast
      then show ?thesis using True idx eq by (subst bisect.simps) simp
    next
      case lt
      have neq: "?line \<noteq> q" using lt by auto
      have IH: "bisect fc q (?mid + 1) high =
          Inr (\<exists>k. ?mid + 1 \<le> int k \<and> int k \<le> high \<and> fc ! k = q)"
        using "1.IH"(1)[OF True idx neq lt 1(3)] rng 1(5) by simp
      have "(\<exists>k. ?mid + 1 \<le> int k \<and> int k \<le> high \<and> fc ! k = q) \<longleftrightarrow>
            (\<exists>k. low \<le> int k \<and> int k \<le> high \<and> fc ! k = q)" (is "?L \<longleftrightarrow> ?R")
      proof
        assume ?L then show ?R using mid by force
      next
        assume ?R
        then obtain k where k: "low \<le> int k" "int k \<le> high" "fc ! k = q" by blast
        have "\<not> int k \<le> ?mid"
        proof
          assume "int k \<le> ?mid"
          then have "k \<le> nat ?mid" by linarith
          moreover have "nat ?mid < length fc" using rng by linarith
          ultimately have "fc ! k \<le> fc ! nat ?mid"
            using 1(3) by (simp add: sorted_nth_mono)
          then show False using k(3) lt by simp
        qed
        then show ?L using k by force
      qed
      then show ?thesis using True idx neq lt IH by (subst bisect.simps) simp
    next
      case gt
      have IH: "bisect fc q low (?mid - 1) =
          Inr (\<exists>k. low \<le> int k \<and> int k \<le> ?mid - 1 \<and> fc ! k = q)"
        using "1.IH"(2)[OF True idx gt(1) gt(2) 1(3)] rng 1(4) by simp
      have "(\<exists>k. low \<le> int k \<and> int k \<le> ?mid - 1 \<and> fc ! k = q) \<longleftrightarrow>
            (\<exists>k. low \<le> int k \<and> int k \<le> high \<and> fc ! k = q)" (is "?L \<longleftrightarrow> ?R")
      proof
        assume ?L then show ?R using mid by force
      next
        assume ?R
        then obtain k where k: "low \<le> int k" "int k \<le> high" "fc ! k = q" by blast
        have "\<not> ?mid \<le> int k"
        proof
          assume "?mid \<le> int k"
          then have "nat ?mid \<le> k" by linarith
          moreover have "k < length fc" using k(2) 1(5) by linarith
          ultimately have "fc ! nat ?mid \<le> fc ! k"
            using 1(3) by (simp add: sorted_nth_mono)
          then show False using k(3) gt by simp
        qed
        then show ?L using k by force
      qed
      then show ?thesis using True idx gt IH by (subst bisect.simps) simp
    qed
  qed
qed

lemma index_range_iff_set:
  "(\<exists>k. 0 \<le> int k \<and> int k \<le> int (length xs) - 1 \<and> xs ! k = q) \<longleftrightarrow> q \<in> set xs"
proof
  assume "\<exists>k. 0 \<le> int k \<and> int k \<le> int (length xs) - 1 \<and> xs ! k = q"
  then obtain k where "int k \<le> int (length xs) - 1" "xs ! k = q" by blast
  then have "k < length xs" "xs ! k = q" by auto
  then show "q \<in> set xs" by auto
next
  assume "q \<in> set xs"
  then obtain k where "k < length xs" "xs ! k = q" by (auto simp: in_set_conv_nth)
  then have "0 \<le> int k \<and> int k \<le> int (length xs) - 1 \<and> xs ! k = q" by auto
  then show "\<exists>k. 0 \<le> int k \<and> int k \<le> int (length xs) - 1 \<and> xs ! k = q" by blast
qed

lemma binary_search_correct:
  "fst (binary_search D q) = Inr (q \<in> set D)"
proof -
  have "bisect (sort D) q 0 (int (length (sort D)) - 1) =
        Inr (\<exists>k. 0 \<le> int k \<and> int k \<le> int (length (sort D)) - 1 \<and> sort D ! k = q)"
    by (rule bisect_sorted) simp_all
  then have "bisect (sort D) q 0 (int (length (sort D)) - 1) = Inr (q \<in> set (sort D))"
    by (simp only: index_range_iff_set)
  then show ?thesis by (simp add: binary_search_def Let_def)
qed

lemma linear_search_iff: "linear_search D q \<longleftrightarrow> q \<in> set D"
  by (simp add: linear_search_def py_in_set)

lemma hash_table_search_iff: "hash_table_search D q \<longleftrightarrow> q \<in> set D"
  by (simp add: hash_table_search_def)

text \<open>
  C2. For every non-empty dataset \<open>D\<close> and every query \<open>q\<close>, \<open>linear_search\<close>,
  \<open>hash_table_search\<close> and \<open>binary_search\<close> return the same answer, \<open>binary_search\<close>
  without raising, and the answer is \<open>True\<close> exactly when \<open>q\<close> is an element of \<open>D\<close>.
\<close>

theorem equality_strategies_agree:
  "D \<noteq> [] \<Longrightarrow>
     fst (binary_search D q) = Inr (linear_search D q)
     \<and> hash_table_search D q = linear_search D q
     \<and> (linear_search D q \<longleftrightarrow> q \<in> set D)"
  by (simp add: binary_search_correct linear_search_iff hash_table_search_iff)

text \<open>The theorem at a dataset of three lines and a query that is one of them.\<close>

theorem equality_strategies_agree_witness:
  "[''pear'', ''apple'', ''fig''] \<noteq> []
   \<and> fst (binary_search [''pear'', ''apple'', ''fig''] ''fig'') = Inr True
   \<and> hash_table_search [''pear'', ''apple'', ''fig''] ''fig'' = True
   \<and> linear_search [''pear'', ''apple'', ''fig''] ''fig'' = True"
  using equality_strategies_agree [of "[''pear'', ''apple'', ''fig'']" "''fig''"]
  by simp

subsection \<open>binary_search and the caller's list\<close>

lemma snd_binary_search: "snd (binary_search D q) = sort D"
  by (simp add: binary_search_def Let_def)

lemma benchmark_loop_algorithms:
  "benchmark_loop algorithms L q =
     [(Linear_search, L, Some (Inr (q \<in> set L))),
      (Binary_search, L, Some (Inr (q \<in> set L))),
      (Kmp_search, sort L, kmp_search (sort L) q)]"
proof -
  have b: "binary_search L q = (Inr (q \<in> set L), sort L)"
    using binary_search_correct [of L q] snd_binary_search [of L q]
    by (cases "binary_search L q") simp
  show ?thesis
    by (simp add: algorithms_def call_algorithm_def b linear_search_iff
          split: option.split sum.split)
qed

text \<open>
  C10. \<open>binary_search\<close> leaves the caller's list sorted ascending, with the same lines,
  so a list that was not sorted has lost its order. In \<open>benchmark_algorithms\<close> the
  strategy called after \<open>binary_search\<close>, which is \<open>kmp_search\<close>, receives the sorted
  list, while \<open>linear_search\<close> and \<open>binary_search\<close> receive the lines in the order of
  the file. The other four strategies leave the list as it is.
\<close>

theorem binary_search_sorts_in_place:
  "snd (binary_search D q) = sort D
   \<and> sorted (snd (binary_search D q))
   \<and> mset (snd (binary_search D q)) = mset D
   \<and> (\<not> sorted D \<longrightarrow> snd (binary_search D q) \<noteq> D)
   \<and> snd (call_algorithm Binary_search D q) = sort D
   \<and> snd (call_algorithm Linear_search D q) = D
   \<and> snd (call_algorithm Kmp_search D q) = D
   \<and> snd (call_algorithm Boyer_moore_search D q) = D
   \<and> snd (call_algorithm Hash_table_search D q) = D
   \<and> (open_read fs path = Inr content \<longrightarrow>
        benchmark_algorithms fs path query =
          Inr (Some [(Linear_search, splitlines content,
                        Some (Inr (linear_search (splitlines content) query))),
                     (Binary_search, splitlines content,
                        Some (fst (binary_search (splitlines content) query))),
                     (Kmp_search, sort (splitlines content),
                        kmp_search (sort (splitlines content)) query)]))"
proof -
  have "\<not> sorted D \<longrightarrow> sort D \<noteq> D"
    by (metis sorted_sort)
  moreover have "snd (call_algorithm Binary_search D q) = sort D"
    by (simp add: call_algorithm_def snd_binary_search split: prod.split)
       (metis snd_binary_search snd_conv)
  moreover have "open_read fs path = Inr content \<longrightarrow>
        benchmark_algorithms fs path query =
          Inr (Some [(Linear_search, splitlines content,
                        Some (Inr (linear_search (splitlines content) query))),
                     (Binary_search, splitlines content,
                        Some (fst (binary_search (splitlines content) query))),
                     (Kmp_search, sort (splitlines content),
                        kmp_search (sort (splitlines content)) query)])"
    by (simp add: benchmark_algorithms_def benchmark_loop_algorithms binary_search_correct
          linear_search_iff)
  ultimately show ?thesis
    by (simp add: snd_binary_search call_algorithm_def)
qed

text \<open>
  The theorem at a file of the two lines \<open>b\<close> and \<open>a\<close> and the query \<open>b\<close>:
  \<open>kmp_search\<close> is called on \<open>["a", "b"]\<close>.
\<close>

theorem binary_search_sorts_in_place_witness:
  "open_read [(''200k.txt'', Readable [98, 10, 97])] ''200k.txt'' = Inr [98, 10, 97]
   \<and> \<not> sorted [''b'', ''a'']
   \<and> snd (binary_search [''b'', ''a''] ''b'') = [''a'', ''b'']
   \<and> benchmark_algorithms [(''200k.txt'', Readable [98, 10, 97])] ''200k.txt'' [98] =
         Inr (Some [(Linear_search, [[98], [97]], Some (Inr True)),
                    (Binary_search, [[98], [97]], Some (Inr True)),
                    (Kmp_search, [[97], [98]], Some (Inr True))])"
proof -
  have f: "open_read [(''200k.txt'', Readable [98, 10, 97])] ''200k.txt'' = Inr [98, 10, 97]"
    by (simp add: open_read_def)
  have s: "splitlines [98, 10, 97] = [[98], [97]]"
    by (simp add: splitlines.simps is_linebreak_def)
  have o: "sort [[98], [97 :: nat]] = [[97], [98]]" "sort [''b'', ''a''] = [''a'', ''b'']"
    by simp_all
  have u: "\<not> sorted [''b'', ''a'']"
    by simp
  have k: "kmp_search [[97], [98 :: nat]] [98] = Some (Inr True)"
    by code_simp
  have l: "linear_search [[98], [97 :: nat]] [98]"
    by (simp add: linear_search_def)
  have b: "fst (binary_search [[98], [97 :: nat]] [98]) = Inr True"
    by (simp add: binary_search_correct)
  show ?thesis
    using binary_search_sorts_in_place
      [of "[''b'', ''a'']" "''b''" "[(''200k.txt'', Readable [98, 10, 97])]" "''200k.txt''"
          "[98, 10, 97]" "[98]"]
    by (simp only: f s o u k l b) simp
qed

subsection \<open>The substring strategies\<close>

text \<open>
  A pass of the \<open>while\<close> loop of \<open>boyer_moore_search\<close> that ends with the index it
  started from is repeated for ever: the loop does not return.
\<close>

lemma bm_while_diverges:
  assumes "i < int (length text)" "bm_body skip pattern text i = Inr (Continue i)"
  shows "bm_while skip pattern text i = None"
proof (rule ccontr)
  assume "bm_while skip pattern text i \<noteq> None"
  then obtain y where y: "bm_while skip pattern text i = Some y" by blast
  have "\<not> (s = skip \<and> p = pattern \<and> t = text \<and> j = i)"
    if "bm_while s p t j = Some y'" for s p t j y'
  proof (rule bm_while.raw_induct
          [where P = "\<lambda>s p t j y. \<not> (s = skip \<and> p = pattern \<and> t = text \<and> j = i)", OF _ that])
    fix f :: "('a \<rightharpoonup> int) \<Rightarrow> 'a list \<Rightarrow> 'a list \<Rightarrow> int \<Rightarrow> (error + bool) option"
    fix s p t j r
    assume IH: "\<And>s p t j r. f s p t j = Some r \<Longrightarrow>
                  \<not> (s = skip \<and> p = pattern \<and> t = text \<and> j = i)"
    assume step: "(if j < int (length t) then
                     (case bm_body s p t j of
                        Inl e \<Rightarrow> Some (Inl e)
                      | Inr (Return b) \<Rightarrow> Some (Inr b)
                      | Inr (Continue i') \<Rightarrow> f s p t i')
                   else Some (Inr False)) = Some r"
    show "\<not> (s = skip \<and> p = pattern \<and> t = text \<and> j = i)"
    proof
      assume "s = skip \<and> p = pattern \<and> t = text \<and> j = i"
      with step assms have "f skip pattern text i = Some r" by simp
      from IH[OF this] show False by simp
    qed
  qed
  from this[OF y] show False by simp
qed

text \<open>
  C3. \<open>kmp_search\<close> and \<open>boyer_moore_search\<close> do not decide substring containment.
  \<open>kmp_search(["abaabaabb"], "abaabb")\<close> returns \<open>False\<close> although the query occurs
  in the line at offset 3: the \<open>i -= 1\<close> in \<open>kmp_table\<close> does not repeat the pass of the
  \<open>for\<close> loop, so the table is \<open>[0, 0, 1, 0, 0, 0]\<close> and the search falls back too far.
  \<open>boyer_moore_search(["aaab"], "baa")\<close> returns \<open>True\<close> although the query does not
  occur in the line: the index runs below zero and \<open>text[-1]\<close> reads the last character.
\<close>

theorem substring_strategies_wrong_answers:
  "kmp_search [''abaabaabb''] ''abaabb'' = Some (Inr False)
   \<and> sublist ''abaabb'' ''abaabaabb''
   \<and> boyer_moore_search [''aaab''] ''baa'' = Some (Inr True)
   \<and> \<not> sublist ''baa'' ''aaab''"
proof -
  have "kmp_search [''abaabaabb''] ''abaabb'' = Some (Inr False)"
    by code_simp
  moreover have "sublist ''abaabb'' (''aba'' @ ''abaabb'')"
    by (rule sublist_append_leftI)
  moreover have "boyer_moore_search [''aaab''] ''baa'' = Some (Inr True)"
    by code_simp
  moreover have "\<not> sublist ''baa'' ''aaab''"
    by (simp add: sublist_Cons_right)
  ultimately show ?thesis by simp
qed

text \<open>
  C4. \<open>kmp_search\<close> and \<open>boyer_moore_search\<close> do not always return the same boolean:
  on the dataset \<open>["aaab"]\<close> and the query \<open>"baa"\<close> the first returns \<open>False\<close> and
  the second \<open>True\<close>, and so they do on the dataset \<open>[""]\<close> and the empty query.
\<close>

theorem substring_strategies_disagree:
  "kmp_search [''aaab''] ''baa'' = Some (Inr False)
   \<and> boyer_moore_search [''aaab''] ''baa'' = Some (Inr True)
   \<and> kmp_search [[]] ([] :: string) = Some (Inr False)
   \<and> boyer_moore_search [[]] ([] :: string) = Some (Inr True)"
proof -
  have "kmp_search [''aaab''] ''baa'' = Some (Inr False)"
    by code_simp
  moreover have "boyer_moore_search [''aaab''] ''baa'' = Some (Inr True)"
    by code_simp
  moreover have "kmp_search [[]] ([] :: string) = Some (Inr False)"
    by code_simp
  moreover have "boyer_moore_search [[]] ([] :: string) = Some (Inr True)"
    by code_simp
  ultimately show ?thesis by simp
qed

text \<open>
  C7. The substring strategies do not always return a boolean.
  \<open>kmp_search(["a"], "")\<close> raises IndexError at \<open>pattern[j]\<close>,
  \<open>boyer_moore_search(["aaa"], "baa")\<close> raises IndexError at \<open>text[i]\<close> with
  \<open>i = -4\<close>, and \<open>boyer_moore_search(["bb"], "ab")\<close> does not return: every pass of
  its \<open>while\<close> loop starts from \<open>i = 1\<close>.
\<close>

theorem substring_strategies_raise_or_loop:
  "kmp_search [''a''] [] = Some (Inl IndexError)
   \<and> boyer_moore_search [''aaa''] ''baa'' = Some (Inl IndexError)
   \<and> boyer_moore_search [''bb''] ''ab'' = None"
proof -
  have "kmp_search [''a''] [] = Some (Inl IndexError)"
    by code_simp
  moreover have "boyer_moore_search [''aaa''] ''baa'' = Some (Inl IndexError)"
    by code_simp
  moreover have "boyer_moore_search [''bb''] ''ab'' = None"
  proof -
    have "bm_body (preprocess ''ab'') ''ab'' ''bb'' 1 = Inr (Continue 1)"
      by code_simp
    then have "bm_while (preprocess ''ab'') ''ab'' ''bb'' 1 = None"
      by (intro bm_while_diverges) simp_all
    then show ?thesis by (simp add: boyer_moore_search_def)
  qed
  ultimately show ?thesis by simp
qed

subsection \<open>The server\<close>

lemma STRING_EXISTS_neq: "STRING_EXISTS \<noteq> STRING_NOT_FOUND"
  by (simp add: STRING_EXISTS_def STRING_NOT_FOUND_def py_str_def)

lemma encode_STRING_EXISTS: "utf8_encode STRING_EXISTS = Inr (py_bytes ''STRING EXISTS'')"
  by (simp add: STRING_EXISTS_def py_str_def py_bytes_def encode_char_def)

lemma encode_STRING_NOT_FOUND:
  "utf8_encode STRING_NOT_FOUND = Inr (py_bytes ''STRING NOT FOUND'')"
  by (simp add: STRING_NOT_FOUND_def py_str_def py_bytes_def encode_char_def)

lemma process_query_dataset:
  "consulted_dataset self fs = Inr (Some D) \<Longrightarrow>
     process_query self fs q = Inr (if q \<in> set D then STRING_EXISTS else STRING_NOT_FOUND)"
  by (simp add: process_query_def py_in_set)

lemma process_query_failure:
  "consulted_dataset self fs = Inl e \<Longrightarrow> process_query self fs q = Inl e"
  by (simp add: process_query_def)

lemma handle_client_cases:
  "handle_client self fs conn addr =
     (case receive_data conn of
        Inl e \<Rightarrow> ([Recv, LogError addr e, Close], None)
      | Inr data \<Rightarrow>
          (case process_query self fs data of
             Inl e \<Rightarrow> ([Recv, LogError addr e, Close], None)
           | Inr response \<Rightarrow>
               (case utf8_encode response of
                  Inl e \<Rightarrow> ([Recv, LogError addr e, Close], None)
                | Inr payload \<Rightarrow>
                    (case sendall_error conn of
                       Some e \<Rightarrow>
                         ([Recv, SendFailed (payload @ [0x0A]), LogError addr e, Close], None)
                     | None \<Rightarrow>
                         ([Recv, Sent (payload @ [0x0A]), LogDebug data addr, Close], None)))))"
  by (simp add: handle_client_def handle_client_try_def send_response_def
        split: sum.split option.split)

lemma handle_client_answer:
  assumes "receive_data conn = Inr q" "consulted_dataset self fs = Inr (Some D)"
    "sendall_error conn = None"
  shows "handle_client self fs conn addr =
     ([Recv,
       Sent (py_bytes (if q \<in> set D then ''STRING EXISTS'' else ''STRING NOT FOUND'') @ [0x0A]),
       LogDebug q addr, Close], None)"
  using assms
  by (simp add: handle_client_cases process_query_dataset encode_STRING_EXISTS
        encode_STRING_NOT_FOUND)

lemma splitlines_line:
  assumes "list_all (\<lambda>c. \<not> is_linebreak c) l"
  shows "splitlines (l @ 0x0A # rest) = l # splitlines rest"
proof -
  have nl: "is_linebreak 0x0A" by (simp add: is_linebreak_def)
  have "\<forall>c\<in>set l. \<not> is_linebreak c" using assms by (simp add: list_all_iff)
  then have t: "takeWhile (\<lambda>c. \<not> is_linebreak c) (l @ 0x0A # rest) = l"
    and d: "dropWhile (\<lambda>c. \<not> is_linebreak c) (l @ 0x0A # rest) = 0x0A # rest"
    using nl by (simp_all add: takeWhile_append2 dropWhile_append2)
  have s: "skip_linebreak (0x0A # rest) = rest"
    by (cases rest) simp_all
  show ?thesis
    by (subst splitlines.simps) (simp add: t d s)
qed


lemma splitlines_Nil: "splitlines [] = []"
  by (simp add: splitlines.simps)

text \<open>
  C1. Whenever the dataset consulted for a query is the list of lines \<open>D\<close>,
  \<open>process_query\<close> returns \<open>"STRING EXISTS"\<close> exactly when the query is equal to a line
  of \<open>D\<close> and \<open>"STRING NOT FOUND"\<close> exactly when it is not; and a handler that has
  received that query and whose \<open>sendall\<close> succeeds sends one payload, the verdict
  followed by a single newline.
\<close>

theorem process_query_verdict:
  "consulted_dataset self fs = Inr (Some D) \<Longrightarrow>
     (process_query self fs q = Inr STRING_EXISTS \<longleftrightarrow> q \<in> set D)
     \<and> (process_query self fs q = Inr STRING_NOT_FOUND \<longleftrightarrow> q \<notin> set D)
     \<and> STRING_EXISTS = py_str ''STRING EXISTS''
     \<and> STRING_NOT_FOUND = py_str ''STRING NOT FOUND''
     \<and> (receive_data conn = Inr q \<and> sendall_error conn = None \<longrightarrow>
          sent_payloads (fst (handle_client self fs conn addr)) =
            [py_bytes (if q \<in> set D then ''STRING EXISTS'' else ''STRING NOT FOUND'') @ [0x0A]])"
  using STRING_EXISTS_neq
  by (auto simp: process_query_dataset handle_client_answer STRING_EXISTS_def
        STRING_NOT_FOUND_def)


text \<open>
  The end-to-end scenario of the specification: the file holds the lines
  \<open>10;0;1;26;0;9;3;0;\<close> and \<open>7;0;21;16;0;22;4;0;\<close>, the server is constructed with
  \<open>REREAD_ON_QUERY = 0\<close>; the query \<open>10;0;1;26;0;9;3;0;\<close> is answered
  \<open>STRING EXISTS\<close>, the query \<open>99;0;0;0;\<close> is answered \<open>STRING NOT FOUND\<close>.
\<close>

theorem process_query_verdict_witness:
  "Server_init
      [(''200k.txt'', Readable (py_str ''10;0;1;26;0;9;3;0;'' @ [0x0A] @ py_str ''7;0;21;16;0;22;4;0;'' @ [0x0A]))] 0 0 ''200k.txt'' =
     Inr \<lparr>ssl_enabled = 0, reread_on_query = 0, file_path = ''200k.txt'',
          file_contents = Some [py_str ''10;0;1;26;0;9;3;0;'', py_str ''7;0;21;16;0;22;4;0;'']\<rparr>
   \<and> consulted_dataset
        \<lparr>ssl_enabled = 0, reread_on_query = 0, file_path = ''200k.txt'',
          file_contents = Some [py_str ''10;0;1;26;0;9;3;0;'', py_str ''7;0;21;16;0;22;4;0;'']\<rparr> [] =
      Inr (Some [py_str ''10;0;1;26;0;9;3;0;'', py_str ''7;0;21;16;0;22;4;0;''])
   \<and> process_query
        \<lparr>ssl_enabled = 0, reread_on_query = 0, file_path = ''200k.txt'',
          file_contents = Some [py_str ''10;0;1;26;0;9;3;0;'', py_str ''7;0;21;16;0;22;4;0;'']\<rparr> [] (py_str ''10;0;1;26;0;9;3;0;'') =
      Inr STRING_EXISTS
   \<and> process_query
        \<lparr>ssl_enabled = 0, reread_on_query = 0, file_path = ''200k.txt'',
          file_contents = Some [py_str ''10;0;1;26;0;9;3;0;'', py_str ''7;0;21;16;0;22;4;0;'']\<rparr> [] (py_str ''99;0;0;0;'') =
      Inr STRING_NOT_FOUND
   \<and> receive_data \<lparr>recv_result = Inr (py_bytes ''10;0;1;26;0;9;3;0;''), sendall_error = None\<rparr> =
      Inr (py_str ''10;0;1;26;0;9;3;0;'')
   \<and> sent_payloads (fst (handle_client
        \<lparr>ssl_enabled = 0, reread_on_query = 0, file_path = ''200k.txt'',
          file_contents = Some [py_str ''10;0;1;26;0;9;3;0;'', py_str ''7;0;21;16;0;22;4;0;'']\<rparr> []
        \<lparr>recv_result = Inr (py_bytes ''10;0;1;26;0;9;3;0;''), sendall_error = None\<rparr> (''127.0.0.1'', 50000))) =
      [py_bytes ''STRING EXISTS'' @ [0x0A]]"
proof -
  let ?srv = "\<lparr>ssl_enabled = 0, reread_on_query = 0, file_path = ''200k.txt'',
          file_contents = Some [py_str ''10;0;1;26;0;9;3;0;'', py_str ''7;0;21;16;0;22;4;0;'']\<rparr>"
  let ?conn = "\<lparr>recv_result = Inr (py_bytes ''10;0;1;26;0;9;3;0;''), sendall_error = None\<rparr>"
  let ?D = "[py_str ''10;0;1;26;0;9;3;0;'', py_str ''7;0;21;16;0;22;4;0;'']"
  have lines: "splitlines (py_str ''10;0;1;26;0;9;3;0;'' @ [0x0A] @ py_str ''7;0;21;16;0;22;4;0;'' @ [0x0A]) = ?D"
  proof -
    have "list_all (\<lambda>c. \<not> is_linebreak c) (py_str ''10;0;1;26;0;9;3;0;'')"
      "list_all (\<lambda>c. \<not> is_linebreak c) (py_str ''7;0;21;16;0;22;4;0;'')"
      by (simp_all add: py_str_def is_linebreak_def)
    then show ?thesis
      by (simp add: splitlines_line splitlines_Nil)
  qed
  have init: "Server_init [(''200k.txt'', Readable (py_str ''10;0;1;26;0;9;3;0;'' @ [0x0A] @ py_str ''7;0;21;16;0;22;4;0;'' @ [0x0A]))] 0 0 ''200k.txt'' = Inr ?srv"
    using lines by (simp add: Server_init_def read_file_def open_read_def)
  have dataset: "consulted_dataset ?srv [] = Inr (Some ?D)"
    by (simp add: consulted_dataset_def)
  have data: "receive_data ?conn = Inr (py_str ''10;0;1;26;0;9;3;0;'')"
    by (simp add: receive_data_def py_bytes_def py_str_def utf8_first_def strip_def
          is_whitespace_def)
  have mem: "py_str ''10;0;1;26;0;9;3;0;'' \<in> set ?D" "py_str ''99;0;0;0;'' \<notin> set ?D"
    by (simp_all add: py_str_def)
  show ?thesis
    using process_query_verdict [OF dataset, of "py_str ''10;0;1;26;0;9;3;0;''" ?conn "(''127.0.0.1'', 50000)"]
      process_query_verdict [OF dataset, of "py_str ''99;0;0;0;''" ?conn "(''127.0.0.1'', 50000)"]
      init dataset data mem
    by simp
qed

subsection \<open>The reload policy\<close>

lemma Server_init_reread:
  "reread \<noteq> 0 \<Longrightarrow>
     Server_init fs0 ssl reread path =
       Inr \<lparr>ssl_enabled = ssl, reread_on_query = reread, file_path = path, file_contents = None\<rparr>"
  by (simp add: Server_init_def)

lemma Server_init_static:
  "Server_init fs0 ssl 0 path =
     (case read_file fs0 path of
        Inl e \<Rightarrow> Inl e
      | Inr D \<Rightarrow>
          Inr \<lparr>ssl_enabled = ssl, reread_on_query = 0, file_path = path, file_contents = Some D\<rparr>)"
  by (simp add: Server_init_def split: sum.split)

lemma read_file_one_line:
  "list_all (\<lambda>c. \<not> is_linebreak c) l \<Longrightarrow>
     read_file [(path, Readable (l @ [0x0A]))] path = Inr [l]"
  by (simp add: read_file_def open_read_def splitlines_line splitlines_Nil)

text \<open>
  C5. For a server that \<open>Server.__init__\<close> has constructed: with \<open>REREAD_ON_QUERY\<close>
  enabled, every call of \<open>process_query\<close> consults the lines that \<open>read_file\<close> gives
  on the file system as it is at that call (and fails as \<open>read_file\<close> fails); with it
  disabled, every call consults the lines read by the constructor, whatever the file
  system is at the call. Here \<open>fs0\<close> is the file system at startup and \<open>fs\<close> the one at
  the query; \<open>process_query\<close> and \<open>handle_client\<close> never assign to the server object.
\<close>

theorem reload_policy:
  "Server_init fs0 ssl reread path = Inr self \<Longrightarrow>
     (reread \<noteq> 0 \<longrightarrow>
        consulted_dataset self fs =
          (case read_file fs path of Inl e \<Rightarrow> Inl e | Inr D \<Rightarrow> Inr (Some D))
        \<and> process_query self fs q =
          (case read_file fs path of
             Inl e \<Rightarrow> Inl e
           | Inr D \<Rightarrow> Inr (if q \<in> set D then STRING_EXISTS else STRING_NOT_FOUND)))
     \<and> (reread = 0 \<longrightarrow>
          (\<exists>D. read_file fs0 path = Inr D
             \<and> file_contents self = Some D
             \<and> consulted_dataset self fs = Inr (Some D)
             \<and> process_query self fs q =
                 Inr (if q \<in> set D then STRING_EXISTS else STRING_NOT_FOUND)))"
proof (cases "reread = 0")
  case True
  assume init: "Server_init fs0 ssl reread path = Inr self"
  from init True obtain D where D: "read_file fs0 path = Inr D"
    and self: "self = \<lparr>ssl_enabled = ssl, reread_on_query = 0, file_path = path,
                       file_contents = Some D\<rparr>"
    by (auto simp: Server_init_static split: sum.splits)
  have c: "consulted_dataset self fs = Inr (Some D)"
    by (simp add: self consulted_dataset_def)
  have "process_query self fs q = Inr (if q \<in> set D then STRING_EXISTS else STRING_NOT_FOUND)"
    by (rule process_query_dataset [OF c])
  with True D c self show ?thesis by auto
next
  case False
  assume init: "Server_init fs0 ssl reread path = Inr self"
  with False have self: "self = \<lparr>ssl_enabled = ssl, reread_on_query = reread, file_path = path,
                           file_contents = None\<rparr>"
    by (simp add: Server_init_reread)
  have c: "consulted_dataset self fs =
          (case read_file fs path of Inl e \<Rightarrow> Inl e | Inr D \<Rightarrow> Inr (Some D))"
    using False by (simp add: self consulted_dataset_def)
  have "process_query self fs q =
          (case read_file fs path of
             Inl e \<Rightarrow> Inl e
           | Inr D \<Rightarrow> Inr (if q \<in> set D then STRING_EXISTS else STRING_NOT_FOUND))"
    by (simp add: process_query_def c py_in_set split: sum.split)
  with False c show ?thesis by simp
qed

text \<open>
  The theorem at a file that holds the line \<open>old\<close> at startup and the line \<open>new\<close> at
  the query: with reread enabled \<open>new\<close> is found and \<open>old\<close> is not, with reread
  disabled \<open>old\<close> is found and \<open>new\<close> is not.
\<close>

theorem reload_policy_witness:
  "Server_init [(''200k.txt'', Readable (py_str ''old'' @ [0x0A]))] 0 1 ''200k.txt'' =
     Inr \<lparr>ssl_enabled = 0, reread_on_query = 1, file_path = ''200k.txt'', file_contents = None\<rparr>
   \<and> process_query
        \<lparr>ssl_enabled = 0, reread_on_query = 1, file_path = ''200k.txt'', file_contents = None\<rparr>
        [(''200k.txt'', Readable (py_str ''new'' @ [0x0A]))] (py_str ''new'') = Inr STRING_EXISTS
   \<and> process_query
        \<lparr>ssl_enabled = 0, reread_on_query = 1, file_path = ''200k.txt'', file_contents = None\<rparr>
        [(''200k.txt'', Readable (py_str ''new'' @ [0x0A]))] (py_str ''old'') = Inr STRING_NOT_FOUND
   \<and> Server_init [(''200k.txt'', Readable (py_str ''old'' @ [0x0A]))] 0 0 ''200k.txt'' =
     Inr \<lparr>ssl_enabled = 0, reread_on_query = 0, file_path = ''200k.txt'',
          file_contents = Some [py_str ''old'']\<rparr>
   \<and> process_query
        \<lparr>ssl_enabled = 0, reread_on_query = 0, file_path = ''200k.txt'',
          file_contents = Some [py_str ''old'']\<rparr>
        [(''200k.txt'', Readable (py_str ''new'' @ [0x0A]))] (py_str ''new'') = Inr STRING_NOT_FOUND
   \<and> process_query
        \<lparr>ssl_enabled = 0, reread_on_query = 0, file_path = ''200k.txt'',
          file_contents = Some [py_str ''old'']\<rparr>
        [(''200k.txt'', Readable (py_str ''new'' @ [0x0A]))] (py_str ''old'') = Inr STRING_EXISTS"
proof -
  let ?old = "[(''200k.txt'', Readable (py_str ''old'' @ [0x0A]))]"
  let ?new = "[(''200k.txt'', Readable (py_str ''new'' @ [0x0A]))]"
  let ?s1 = "\<lparr>ssl_enabled = 0, reread_on_query = 1, file_path = ''200k.txt'',
              file_contents = None\<rparr>"
  let ?s0 = "\<lparr>ssl_enabled = 0, reread_on_query = 0, file_path = ''200k.txt'',
              file_contents = Some [py_str ''old'']\<rparr>"
  have r_old: "read_file ?old ''200k.txt'' = Inr [py_str ''old'']"
    by (rule read_file_one_line) (simp add: py_str_def is_linebreak_def)
  have r_new: "read_file ?new ''200k.txt'' = Inr [py_str ''new'']"
    by (rule read_file_one_line) (simp add: py_str_def is_linebreak_def)
  have i1: "Server_init ?old 0 1 ''200k.txt'' = Inr ?s1"
    by (simp add: Server_init_def)
  have i0: "Server_init ?old 0 0 ''200k.txt'' = Inr ?s0"
    using r_old by (simp add: Server_init_def)
  have ne: "py_str ''new'' \<noteq> py_str ''old''"
    by (simp add: py_str_def)
  show ?thesis
    using reload_policy [OF i1, of ?new "py_str ''new''"]
      reload_policy [OF i1, of ?new "py_str ''old''"]
      reload_policy [OF i0, of ?new "py_str ''new''"]
      reload_policy [OF i0, of ?new "py_str ''old''"]
      i1 i0 r_old r_new ne
    by auto
qed

subsection \<open>The query a handler works on\<close>

lemma strip_decomposition:
  "\<exists>pre post. text = pre @ strip text @ post
      \<and> list_all is_whitespace pre \<and> list_all is_whitespace post"
proof -
  let ?m = "dropWhile is_whitespace text"
  let ?pre = "takeWhile is_whitespace text"
  let ?post = "rev (takeWhile is_whitespace (rev ?m))"
  have "rev (takeWhile is_whitespace (rev ?m) @ dropWhile is_whitespace (rev ?m)) =
      rev (dropWhile is_whitespace (rev ?m)) @ ?post"
    by (rule rev_append)
  then have "rev (rev ?m) = rev (dropWhile is_whitespace (rev ?m)) @ ?post"
    by (simp only: takeWhile_dropWhile_id)
  then have m: "?m = strip text @ ?post"
    by (simp only: rev_rev_ident strip_def)
  have "text = ?pre @ ?m" by simp
  with m have "text = ?pre @ strip text @ ?post" by simp
  moreover have "list_all is_whitespace ?pre"
    by (simp add: list_all_iff) (meson set_takeWhileD)
  moreover have "list_all is_whitespace ?post"
    by (simp add: list_all_iff) (meson set_takeWhileD)
  ultimately show ?thesis by blast
qed

lemma strip_ends:
  assumes "strip text \<noteq> []"
  shows "\<not> is_whitespace (hd (strip text))" "\<not> is_whitespace (last (strip text))"
proof -
  let ?m = "dropWhile is_whitespace text"
  let ?d = "dropWhile is_whitespace (rev ?m)"
  have d: "?d \<noteq> []" using assms by (simp add: strip_def)
  have m: "?m \<noteq> []"
  proof
    assume "?m = []"
    then have "?d = []" by (simp only: rev.simps dropWhile.simps)
    with d show False by simp
  qed
  have "last (strip text) = hd ?d"
    using d by (simp add: strip_def last_rev)
  moreover have "\<not> is_whitespace (hd ?d)"
    using d by (rule hd_dropWhile)
  ultimately show "\<not> is_whitespace (last (strip text))" by simp
  have "rev ?m = takeWhile is_whitespace (rev ?m) @ ?d" by simp
  then have "last (rev ?m) = last ?d"
    using d by (metis last_appendR)
  then have "hd ?m = last ?d"
    using m by (simp add: last_rev)
  then have "hd (strip text) = hd ?m"
    using d by (simp add: strip_def hd_rev)
  moreover have "\<not> is_whitespace (hd ?m)"
    using m by (rule hd_dropWhile)
  ultimately show "\<not> is_whitespace (hd (strip text))" by simp
qed

text \<open>
  C8 (as the code has it). The query that \<open>handle_client\<close> passes to \<open>process_query\<close>
  is the decoded text of the received bytes with whitespace removed at both ends, as
  \<open>str.strip()\<close> does: what is removed in front and behind is whitespace only, the
  rest is kept as it is, and a non-empty query neither starts nor ends with whitespace.
\<close>

theorem received_query_is_stripped:
  "recv_result conn = Inr raw \<Longrightarrow> utf8_decode raw = Inr text \<Longrightarrow>
     receive_data conn = Inr (strip text)
     \<and> (\<exists>pre post. text = pre @ strip text @ post
           \<and> list_all is_whitespace pre \<and> list_all is_whitespace post)
     \<and> (strip text \<noteq> [] \<longrightarrow>
           \<not> is_whitespace (hd (strip text)) \<and> \<not> is_whitespace (last (strip text)))
     \<and> handle_client_try self fs conn addr =
         (case process_query self fs (strip text) of
            Inl e \<Rightarrow> ([Recv], Some e)
          | Inr response \<Rightarrow>
              (Recv # fst (send_response conn addr (strip text) response),
               snd (send_response conn addr (strip text) response)))"
proof -
  assume "recv_result conn = Inr raw" "utf8_decode raw = Inr text"
  then have r: "receive_data conn = Inr (strip text)"
    by (simp add: receive_data_def)
  have "handle_client_try self fs conn addr =
         (case process_query self fs (strip text) of
            Inl e \<Rightarrow> ([Recv], Some e)
          | Inr response \<Rightarrow>
              (Recv # fst (send_response conn addr (strip text) response),
               snd (send_response conn addr (strip text) response)))"
    by (simp add: handle_client_try_def r split: sum.split prod.split)
  with r strip_decomposition [of "text"] strip_ends [of "text"] show ?thesis
    by blast
qed

text \<open>
  The theorem at the payload \<open>b" a b\n"\<close>: the query is \<open>"a b"\<close>, without the
  leading space and the final newline and with the inner space.
\<close>

theorem received_query_is_stripped_witness:
  "recv_result \<lparr>recv_result = Inr [0x20, 0x61, 0x20, 0x62, 0x0A], sendall_error = None\<rparr> =
     Inr [0x20, 0x61, 0x20, 0x62, 0x0A]
   \<and> utf8_decode [0x20, 0x61, 0x20, 0x62, 0x0A] = Inr [0x20, 0x61, 0x20, 0x62, 0x0A]
   \<and> strip [0x20, 0x61, 0x20, 0x62, 0x0A] = [0x61, 0x20, 0x62]
   \<and> receive_data \<lparr>recv_result = Inr [0x20, 0x61, 0x20, 0x62, 0x0A], sendall_error = None\<rparr> =
     Inr [0x61, 0x20, 0x62]"
proof -
  have d: "utf8_decode [0x20, 0x61, 0x20, 0x62, 0x0A] = Inr [0x20, 0x61, 0x20, 0x62, 0x0A]"
    by (simp add: utf8_first_def)
  have s: "strip [0x20, 0x61, 0x20, 0x62, 0x0A] = [0x61, 0x20, 0x62]"
    by (simp add: strip_def is_whitespace_def)
  show ?thesis
    using received_query_is_stripped
      [of "\<lparr>recv_result = Inr [0x20, 0x61, 0x20, 0x62, 0x0A], sendall_error = None\<rparr>"
          "[0x20, 0x61, 0x20, 0x62, 0x0A]" "[0x20, 0x61, 0x20, 0x62, 0x0A]", OF _ d]
      d s
    by simp
qed

text \<open>
  C8 as the specification states it fails at the payload \<open>b" a\n"\<close>: removing trailing
  whitespace only gives \<open>" a"\<close>, while the handler works on \<open>"a"\<close>.
\<close>

theorem received_query_leading_whitespace_counterexample:
  "utf8_decode [0x20, 0x61, 0x0A] = Inr [0x20, 0x61, 0x0A]
   \<and> spec_rstrip [0x20, 0x61, 0x0A] = [0x20, 0x61]
   \<and> receive_data \<lparr>recv_result = Inr [0x20, 0x61, 0x0A], sendall_error = None\<rparr> = Inr [0x61]
   \<and> receive_data \<lparr>recv_result = Inr [0x20, 0x61, 0x0A], sendall_error = None\<rparr>
       \<noteq> Inr (spec_rstrip [0x20, 0x61, 0x0A])"
  by (simp add: receive_data_def utf8_first_def strip_def spec_rstrip_def is_whitespace_def)

subsection \<open>One connection\<close>

lemma process_query_literals:
  "process_query self fs q = Inr response \<Longrightarrow>
     response = STRING_EXISTS \<or> response = STRING_NOT_FOUND"
  by (auto simp: process_query_def split: sum.splits option.splits if_splits)

lemma process_query_encodes:
  "process_query self fs q = Inr response \<Longrightarrow> \<exists>payload. utf8_encode response = Inr payload"
  using process_query_literals [of self fs q response]
  by (auto simp: encode_STRING_EXISTS encode_STRING_NOT_FOUND)

lemma handle_client_query_error:
  "receive_data conn = Inr data \<Longrightarrow> process_query self fs data = Inl e \<Longrightarrow>
     handle_client self fs conn addr = ([Recv, LogError addr e, Close], None)"
  by (simp add: handle_client_cases)

lemma handle_client_success:
  "receive_data conn = Inr data \<Longrightarrow> process_query self fs data = Inr response \<Longrightarrow>
   sendall_error conn = None \<Longrightarrow>
     \<exists>payload. utf8_encode response = Inr payload
       \<and> handle_client self fs conn addr =
           ([Recv, Sent (payload @ [0x0A]), LogDebug data addr, Close], None)"
  using process_query_encodes [of self fs data response]
  by (auto simp: handle_client_cases)

text \<open>Every run of a handler has one of three shapes.\<close>

lemma handle_client_shapes:
  "(\<exists>e. handle_client self fs conn addr = ([Recv, LogError addr e, Close], None))
   \<or> (\<exists>payload e. handle_client self fs conn addr =
         ([Recv, SendFailed payload, LogError addr e, Close], None))
   \<or> (\<exists>payload data. handle_client self fs conn addr =
         ([Recv, Sent payload, LogDebug data addr, Close], None))"
  by (simp add: handle_client_cases split: sum.split option.split)

lemma handle_client_frame:
  "snd (handle_client self fs conn addr) = None
   \<and> last (fst (handle_client self fs conn addr)) = Close
   \<and> count_list (fst (handle_client self fs conn addr)) Close = 1
   \<and> count_list (fst (handle_client self fs conn addr)) Recv = 1
   \<and> sendall_calls (fst (handle_client self fs conn addr)) \<le> 1
   \<and> length (sent_payloads (fst (handle_client self fs conn addr))) \<le> 1"
  using handle_client_shapes [of self fs conn addr] by auto

lemma consulted_dataset_unavailable:
  "reread_on_query self \<noteq> 0 \<Longrightarrow> open_read fs (file_path self) = Inl e \<Longrightarrow>
     consulted_dataset self fs = Inl e"
  by (simp add: consulted_dataset_def read_file_def)

text \<open>
  C6 (as the code has it). A handler closes the connection exactly once, as its last
  effect, on every path, and returns without an exception. It sends at most one payload:
  exactly one, the encoded response and a newline, when the receive, the decoding, the
  query and \<open>sendall\<close> all succeed. When the dataset file is missing or unreadable at the
  reload for a query, nothing is sent: the error is logged and the connection closed.
\<close>

theorem handle_client_response_and_close:
  "snd (handle_client self fs conn addr) = None
   \<and> last (fst (handle_client self fs conn addr)) = Close
   \<and> count_list (fst (handle_client self fs conn addr)) Close = 1
   \<and> length (sent_payloads (fst (handle_client self fs conn addr))) \<le> 1
   \<and> (receive_data conn = Inr data \<and> process_query self fs data = Inr response
        \<and> sendall_error conn = None \<longrightarrow>
          (\<exists>payload. utf8_encode response = Inr payload
             \<and> sent_payloads (fst (handle_client self fs conn addr)) = [payload @ [0x0A]]))
   \<and> (receive_data conn = Inr data \<and> reread_on_query self \<noteq> 0
        \<and> open_read fs (file_path self) = Inl e \<longrightarrow>
          handle_client self fs conn addr = ([Recv, LogError addr e, Close], None)
          \<and> sent_payloads (fst (handle_client self fs conn addr)) = [])"
proof -
  have "receive_data conn = Inr data \<and> process_query self fs data = Inr response
        \<and> sendall_error conn = None \<longrightarrow>
          (\<exists>payload. utf8_encode response = Inr payload
             \<and> sent_payloads (fst (handle_client self fs conn addr)) = [payload @ [0x0A]])"
    using handle_client_success [of conn data self fs response addr] by auto
  moreover have "receive_data conn = Inr data \<and> reread_on_query self \<noteq> 0
        \<and> open_read fs (file_path self) = Inl e \<longrightarrow>
          handle_client self fs conn addr = ([Recv, LogError addr e, Close], None)
          \<and> sent_payloads (fst (handle_client self fs conn addr)) = []"
    using handle_client_query_error [of conn data self fs e addr]
      process_query_failure [of self fs e data] consulted_dataset_unavailable [of self fs e]
    by auto
  ultimately show ?thesis
    using handle_client_frame [of self fs conn addr] by blast
qed

text \<open>
  The theorem at a server with reread enabled and a client that sends \<open>b"a\n"\<close>: with
  the file missing the error is logged and nothing is sent, with the file holding the
  line \<open>a\<close> the one payload is \<open>b"STRING EXISTS\n"\<close>.
\<close>

theorem handle_client_response_and_close_witness:
  "receive_data \<lparr>recv_result = Inr [0x61, 0x0A], sendall_error = None\<rparr> = Inr [0x61]
   \<and> reread_on_query \<lparr>ssl_enabled = 0, reread_on_query = 1, file_path = ''200k.txt'',
        file_contents = None\<rparr> \<noteq> 0
   \<and> open_read [] ''200k.txt'' = Inl FileNotFoundError
   \<and> handle_client
        \<lparr>ssl_enabled = 0, reread_on_query = 1, file_path = ''200k.txt'', file_contents = None\<rparr>
        [] \<lparr>recv_result = Inr [0x61, 0x0A], sendall_error = None\<rparr> (''127.0.0.1'', 50000) =
      ([Recv, LogError (''127.0.0.1'', 50000) FileNotFoundError, Close], None)
   \<and> process_query
        \<lparr>ssl_enabled = 0, reread_on_query = 1, file_path = ''200k.txt'', file_contents = None\<rparr>
        [(''200k.txt'', Readable [0x61, 0x0A])] [0x61] = Inr STRING_EXISTS
   \<and> sent_payloads (fst (handle_client
        \<lparr>ssl_enabled = 0, reread_on_query = 1, file_path = ''200k.txt'', file_contents = None\<rparr>
        [(''200k.txt'', Readable [0x61, 0x0A])]
        \<lparr>recv_result = Inr [0x61, 0x0A], sendall_error = None\<rparr> (''127.0.0.1'', 50000))) =
      [py_bytes ''STRING EXISTS'' @ [0x0A]]"
proof -
  let ?srv = "\<lparr>ssl_enabled = 0, reread_on_query = 1, file_path = ''200k.txt'',
               file_contents = None\<rparr>"
  let ?conn = "\<lparr>recv_result = Inr [0x61, 0x0A], sendall_error = None\<rparr>"
  let ?fs = "[(''200k.txt'', Readable [0x61, 0x0A])]"
  have data: "receive_data ?conn = Inr [0x61]"
    by (simp add: receive_data_def utf8_first_def strip_def is_whitespace_def)
  have missing: "open_read [] ''200k.txt'' = Inl FileNotFoundError"
    by (simp add: open_read_def)
  have "read_file ?fs ''200k.txt'' = Inr [[0x61]]"
    using read_file_one_line [of "[0x61]" "''200k.txt''"] by (simp add: is_linebreak_def)
  then have query: "process_query ?srv ?fs [0x61] = Inr STRING_EXISTS"
    by (simp add: process_query_def consulted_dataset_def)
  show ?thesis
    using handle_client_response_and_close
        [of ?srv "[]" ?conn "(''127.0.0.1'', 50000)" "[0x61]" STRING_EXISTS FileNotFoundError]
      handle_client_response_and_close
        [of ?srv ?fs ?conn "(''127.0.0.1'', 50000)" "[0x61]" STRING_EXISTS FileNotFoundError]
      data missing query
    by (simp add: encode_STRING_EXISTS)
qed

text \<open>
  C6 as the specification states it fails when the dataset file is missing at the reload:
  the handler sends no response line at all.
\<close>

theorem one_response_per_connection_counterexample:
  "handle_client
      \<lparr>ssl_enabled = 0, reread_on_query = 1, file_path = ''200k.txt'', file_contents = None\<rparr>
      [] \<lparr>recv_result = Inr [0x61, 0x0A], sendall_error = None\<rparr> (''127.0.0.1'', 50000) =
     ([Recv, LogError (''127.0.0.1'', 50000) FileNotFoundError, Close], None)
   \<and> length (sent_payloads (fst (handle_client
      \<lparr>ssl_enabled = 0, reread_on_query = 1, file_path = ''200k.txt'', file_contents = None\<rparr>
      [] \<lparr>recv_result = Inr [0x61, 0x0A], sendall_error = None\<rparr> (''127.0.0.1'', 50000))))
      \<noteq> 1"
  by (simp add: handle_client_cases receive_data_def utf8_first_def process_query_def
        consulted_dataset_def read_file_def open_read_def)

subsection \<open>Errors of a connection and the accept loop\<close>


lemma process_query_io_reads:
  "fst (process_query_io self fs q) =
     (if reread_on_query self \<noteq> 0 then [ReadFile (file_path self)] else [])"
  by (simp add: process_query_io_def)


lemma handler_events_reads [simp]:
  "handler_events (fst (process_query_io self fs q) @ events) = handler_events events"
  by (simp add: process_query_io_reads)

lemma read_file_calls_reads:
  "read_file_calls (fst (process_query_io self fs q) @ events) \<le> Suc (read_file_calls events)"
  by (simp add: process_query_io_reads)








end
